theory Spec2Isabelle
  imports Main "HOL-Library.Sublist"
begin

section \<open>JavaScript arrays and strings\<close>

text \<open>
  \<^verbatim>\<open>Array.prototype.filter\<close> calls its callback with the element and its zero-based
  index, in index order, and collects the elements the callback accepts in a new array.
  \<open>filter_from\<close> is the loop, started at index \<open>i\<close>.
\<close>

fun filter_from :: "('a \<Rightarrow> nat \<Rightarrow> bool) \<Rightarrow> nat \<Rightarrow> 'a list \<Rightarrow> 'a list" where
  "filter_from cb i [] = []"
| "filter_from cb i (e # es) =
     (if cb e i then e # filter_from cb (Suc i) es else filter_from cb (Suc i) es)"

definition Array_filter :: "('a \<Rightarrow> nat \<Rightarrow> bool) \<Rightarrow> 'a list \<Rightarrow> 'a list" where
  "Array_filter cb arr = filter_from cb 0 arr"

text \<open>
  \<^verbatim>\<open>String.prototype.startsWith(searchString)\<close>, from position 0: the search string
  is compared unit by unit with the start of the receiver.
\<close>

fun startsWith :: "string \<Rightarrow> string \<Rightarrow> bool" where
  "startsWith s [] = True"
| "startsWith [] (c # cs) = False"
| "startsWith (x # xs) (c # cs) = (x = c \<and> startsWith xs cs)"

section \<open>SearchScreen.js\<close>

text \<open>A row of the stock list, with the three fields the screen reads.\<close>

record stock_row =
  Symbol :: string
  Name :: string
  Industry :: string

text \<open>
  \<^verbatim>\<open>filterBySearch(data, param)\<close>, lines 46 to 52. The runtime's
  \<^verbatim>\<open>String.prototype.toUpperCase\<close> is the parameter \<open>toUpperCase\<close>: nothing below
  depends on which letters it maps.
\<close>

definition filterBySearch ::
  "(string \<Rightarrow> string) \<Rightarrow> stock_row list \<Rightarrow> string \<Rightarrow> stock_row list" where
  "filterBySearch toUpperCase data param =
     Array_filter
       (\<lambda>stock i. startsWith (Symbol stock) (toUpperCase param) \<or> startsWith (Name stock) param)
       data"

text \<open>
  The effect of lines 108 to 114, which computes the rows on display from the stock list
  and the search query. The query is \<^verbatim>\<open>null\<close> (\<open>None\<close>) until the user types.
\<close>

definition rowData_effect ::
  "(string \<Rightarrow> string) \<Rightarrow> stock_row list \<Rightarrow> string option \<Rightarrow> stock_row list" where
  "rowData_effect toUpperCase stockList searchQuery =
     (case searchQuery of
        None \<Rightarrow> stockList
      | Some q \<Rightarrow> filterBySearch toUpperCase stockList q)"

text \<open>The reading of the search filter in the specification, on HOL's own list functions.\<close>

definition matches_spec :: "(string \<Rightarrow> string) \<Rightarrow> string \<Rightarrow> stock_row \<Rightarrow> bool" where
  "matches_spec toUpperCase query stock =
     (prefix (toUpperCase query) (Symbol stock) \<or> prefix query (Name stock))"

subsection \<open>Initialising the watch list\<close>

text \<open>
  What one of the two awaited reads of \<^verbatim>\<open>initialiseData\<close> yields: \<^verbatim>\<open>undefined\<close>,
  \<^verbatim>\<open>null\<close> or an array of symbols.
\<close>

datatype jsval = Undefined | Null | Arr "string list"

datatype error = TypeError

text \<open>
  The outcome of a completed initialisation: the state handed to
  \<^verbatim>\<open>initialiseContextState\<close> and the \<^verbatim>\<open>AsyncStorage.setItem(key, value)\<close> calls
  made on the way, in order.
\<close>

record init_result =
  contextState :: "string list"
  setItem_calls :: "(string \<times> string) list"

text \<open>Calling \<^verbatim>\<open>.map\<close> on a value: a \<^verbatim>\<open>TypeError\<close> unless the value is an array.\<close>

definition map_receiver :: "jsval \<Rightarrow> error + string list" where
  "map_receiver v = (case v of Arr xs \<Rightarrow> Inr xs | Undefined \<Rightarrow> Inl TypeError | Null \<Rightarrow> Inl TypeError)"

text \<open>The callback of line 63, run over the elements in order.\<close>

fun push_each :: "string list \<Rightarrow> string list \<Rightarrow> string list" where
  "push_each [] newState = newState"
| "push_each (element # rest) newState = push_each rest (newState @ [element])"

text \<open>The callback of lines 67 to 73, run over the elements in order.\<close>

fun push_missing ::
  "string list \<Rightarrow> string list \<times> (string \<times> string) list \<Rightarrow> string list \<times> (string \<times> string) list" where
  "push_missing [] (newState, calls) = (newState, calls)"
| "push_missing (element # rest) (newState, calls) =
     (let isInvalidElement = element \<in> set newState
      in if isInvalidElement then push_missing rest (newState, calls)
         else push_missing rest (newState @ [element], calls @ [(element, element)]))"

definition completed :: "string list \<times> (string \<times> string) list \<Rightarrow> init_result" where
  "completed p = \<lparr>contextState = fst p, setItem_calls = snd p\<rparr>"

text \<open>
  \<^verbatim>\<open>initialiseData\<close>, lines 58 to 76, as a function of the two values read. Both
  guards are written as in the source, with \<^verbatim>\<open>||\<close>, and both loops run over
  \<^verbatim>\<open>newStocksFromAsync\<close>.
\<close>

definition initialiseData :: "jsval \<Rightarrow> jsval \<Rightarrow> error + init_result" where
  "initialiseData newStocksFromDB newStocksFromAsync =
     (case (if newStocksFromAsync \<noteq> Undefined \<or> newStocksFromAsync \<noteq> Null
            then (case map_receiver newStocksFromAsync of
                    Inl e \<Rightarrow> Inl e
                  | Inr xs \<Rightarrow> Inr (push_each xs []))
            else Inr []) of
        Inl e \<Rightarrow> Inl e
      | Inr newState \<Rightarrow>
          (if newStocksFromDB \<noteq> Undefined \<or> newStocksFromDB \<noteq> Null
           then (case map_receiver newStocksFromAsync of
                   Inl e \<Rightarrow> Inl e
                 | Inr xs \<Rightarrow> Inr (completed (push_missing xs (newState, []))))
           else Inr (completed (newState, []))))"

section \<open>The stock graph\<close>

text \<open>
  A point of the series the graph receives: its date label and the two values the graph
  can plot. The types of the label and of the values are left open.
\<close>

record ('l, 'v) point =
  labels :: 'l
  data :: 'v
  percentage :: 'v

text \<open>
  Time values are integer milliseconds since the epoch, as \<^verbatim>\<open>Date\<close> holds them, and
  an invalid date is \<open>None\<close>. The comparison \<^verbatim>\<open>a > b\<close> of two dates compares their
  time values and is false when either date is invalid. A day count is a whole number.
\<close>

definition msPerDay :: int where
  "msPerDay = 86400000"

definition date_gt :: "int option \<Rightarrow> int option \<Rightarrow> bool" where
  "date_gt a b = (case a of None \<Rightarrow> False | Some x \<Rightarrow> (case b of None \<Rightarrow> False | Some y \<Rightarrow> y < x))"

text \<open>
  What the runtime knows about the place it runs in. \<open>LocalTZA host t isUTC\<close> is the
  offset of local time from UTC in milliseconds at the time \<open>t\<close>, a UTC time value when
  \<open>isUTC\<close> holds and a local one otherwise. \<open>monthStart host t\<close> is the day number of
  the first day of the month that holds the local time \<open>t\<close>; it stands for the calendar
  tables behind \<^verbatim>\<open>YearFromTime\<close> and \<^verbatim>\<open>MonthFromTime\<close>.
\<close>

record host =
  LocalTZA :: "int \<Rightarrow> bool \<Rightarrow> int"
  monthStart :: "int \<Rightarrow> int"

text \<open>The time functions of the language definition that \<^verbatim>\<open>Date\<close> is built on.\<close>

definition Day :: "int \<Rightarrow> int" where
  "Day t = t div msPerDay"

definition TimeWithinDay :: "int \<Rightarrow> int" where
  "TimeWithinDay t = t mod msPerDay"

definition LocalTime :: "host \<Rightarrow> int \<Rightarrow> int" where
  "LocalTime host t = t + LocalTZA host t True"

definition UTC :: "host \<Rightarrow> int \<Rightarrow> int" where
  "UTC host t = t - LocalTZA host t False"

definition DateFromTime :: "host \<Rightarrow> int \<Rightarrow> int" where
  "DateFromTime host t = Day t - monthStart host t + 1"

text \<open>
  \<^verbatim>\<open>MakeDay(YearFromTime(t), MonthFromTime(t), dt)\<close>: the day number of day \<open>dt\<close> of
  the month of \<open>t\<close>, counted on from the first of that month also when \<open>dt\<close> is not a
  day of it.
\<close>

definition MakeDay :: "host \<Rightarrow> int \<Rightarrow> int \<Rightarrow> int" where
  "MakeDay host t dt = monthStart host t + dt - 1"

definition MakeDate :: "int \<Rightarrow> int \<Rightarrow> int" where
  "MakeDate day time = day * msPerDay + time"

definition TimeClip :: "int \<Rightarrow> int option" where
  "TimeClip time = (if 8640000000000000 < \<bar>time\<bar> then None else Some time)"

text \<open>
  \<^verbatim>\<open>getDate()\<close> and \<^verbatim>\<open>setDate(dt)\<close> of a valid date with time value \<open>tv\<close>;
  \<^verbatim>\<open>setDate\<close> gives the new value of the date, which is invalid outside the range
  of \<^verbatim>\<open>Date\<close>.
\<close>

definition getDate :: "host \<Rightarrow> int \<Rightarrow> int" where
  "getDate host tv = DateFromTime host (LocalTime host tv)"

definition setDate :: "host \<Rightarrow> int \<Rightarrow> int \<Rightarrow> int option" where
  "setDate host tv dt =
     (let t = LocalTime host tv;
          newDate = MakeDate (MakeDay host t dt) (TimeWithinDay t)
      in TimeClip (UTC host newDate))"

text \<open>
  \<^verbatim>\<open>filterByDate(data, param)\<close>, lines 19 to 25. \<open>now\<close> is the time value of
  \<^verbatim>\<open>new Date()\<close> and \<open>Date\<close> gives the time value of \<^verbatim>\<open>new Date(stock.labels)\<close>.
  The parameter \<^verbatim>\<open>data\<close> is \<open>series\<close> here, \<open>data\<close> being a field of the points.
\<close>

definition filterByDate ::
  "host \<Rightarrow> int \<Rightarrow> ('l \<Rightarrow> int option) \<Rightarrow> ('l, 'v) point list \<Rightarrow> int \<Rightarrow> ('l, 'v) point list" where
  "filterByDate host now Date series param =
     (let newDate = setDate host now (getDate host now - param)
      in Array_filter (\<lambda>stock i. date_gt (Date (labels stock)) newDate) series)"

text \<open>
  The test of the specification's window: the timestamp of the point is a valid date
  strictly later than the time value \<open>cutoff\<close>.
\<close>

definition later_than :: "('l \<Rightarrow> int option) \<Rightarrow> int \<Rightarrow> ('l, 'v) point \<Rightarrow> bool" where
  "later_than Date cutoff p = (case Date (labels p) of None \<Rightarrow> False | Some t \<Rightarrow> cutoff < t)"

text \<open>
  Two places for concrete runs, each for a run within one month. \<open>utc_host month\<close>
  keeps UTC, in the month whose first day has the day number \<open>month\<close>.
  \<open>new_york_host\<close> is New York in March 2021: five hours behind UTC until the clocks
  go forward on 14 March at 07:00 UTC (03:00 local time afterwards), four hours behind
  from then on; the first of that month is day 18687.
\<close>

definition utc_host :: "int \<Rightarrow> host" where
  "utc_host month = \<lparr>LocalTZA = (\<lambda>t isUTC. 0), monthStart = (\<lambda>t. month)\<rparr>"

definition new_york_host :: host where
  "new_york_host =
     \<lparr>LocalTZA = (\<lambda>t isUTC. if t < (if isUTC then 1615705200000 else 1615690800000)
                            then - 18000000 else - 14400000),
      monthStart = (\<lambda>t. 18687)\<rparr>"

text \<open>
  The remainder \<^verbatim>\<open>a % b\<close> of two whole Numbers: it has the sign of \<open>a\<close>, and it is
  \<^verbatim>\<open>NaN\<close> (\<open>None\<close>) when \<open>b\<close> is zero.
\<close>

definition js_rem :: "int \<Rightarrow> int \<Rightarrow> int option" where
  "js_rem a b = (if b = 0 then None else Some (sgn a * (\<bar>a\<bar> mod \<bar>b\<bar>)))"

text \<open>
  \<^verbatim>\<open>filterElements(arr, nth)\<close>, line 49, for a whole \<^verbatim>\<open>nth\<close>. The strict equality
  \<^verbatim>\<open>===\<close> is false when the remainder is \<^verbatim>\<open>NaN\<close>.
\<close>

definition filterElements :: "'a list \<Rightarrow> int \<Rightarrow> 'a list" where
  "filterElements arr nth' = Array_filter (\<lambda>e i. js_rem (int i) nth' = Some (nth' - 1)) arr"

subsection \<open>Arrays as objects\<close>

text \<open>
  The effect of \<^verbatim>\<open>StockGraph\<close> reverses an array in place and keeps a second name
  for it, so arrays of points live in a store: an address is an index into the list of
  the arrays allocated so far. An address that is not allocated reads as the empty array;
  the properties below are about allocated addresses.
\<close>

type_synonym addr = nat
type_synonym 'a store = "'a list list"

definition deref :: "'a store \<Rightarrow> addr \<Rightarrow> 'a list" where
  "deref h a = (if a < length h then h ! a else [])"

definition alloc :: "'a store \<Rightarrow> 'a list \<Rightarrow> addr \<times> 'a store" where
  "alloc h xs = (length h, h @ [xs])"

text \<open>\<^verbatim>\<open>Array.prototype.reverse\<close> reverses the receiver in place and returns it.\<close>

definition Array_reverse :: "'a store \<Rightarrow> addr \<Rightarrow> addr \<times> 'a store" where
  "Array_reverse h a = (a, h[a := rev (deref h a)])"

text \<open>\<^verbatim>\<open>filterByDate\<close> on the store: the array \<^verbatim>\<open>filter\<close> returns is a new one.\<close>

definition filterByDate_store ::
  "host \<Rightarrow> int \<Rightarrow> ('l \<Rightarrow> int option) \<Rightarrow> ('l, 'v) point store \<Rightarrow> addr \<Rightarrow> int
     \<Rightarrow> addr \<times> ('l, 'v) point store" where
  "filterByDate_store host now Date h series param =
     alloc h (filterByDate host now Date (deref h series) param)"

text \<open>
  The step \<^verbatim>\<open>INDEX = newArray.length / 5\<close> of line 101, when it is a whole number.
  For a length that 5 does not divide the step is a fraction, and the labels then depend
  on floating-point remainders, which are not modelled: the labels are \<open>None\<close> there.
\<close>

definition INDEX :: "nat \<Rightarrow> int option" where
  "INDEX n = (if n mod 5 = 0 then Some (int (n div 5)) else None)"

definition graph_labels :: "('l, 'v) point list \<Rightarrow> 'l list option" where
  "graph_labels newArray =
     (let newIndexes = map labels newArray
      in map_option (filterElements newIndexes) (INDEX (length newArray)))"

text \<open>
  The window step of the effect, lines 98 to 100: \<open>filter'\<close> is the day window
  (\<^verbatim>\<open>undefined\<close> is \<open>None\<close>), \<open>newArray\<close> the array the effect holds when it
  reaches the step and \<open>stocks\<close> the series of the hook. The step gives the array the
  effect goes on with, and the store.
\<close>

definition window_step ::
  "host \<Rightarrow> int \<Rightarrow> ('l \<Rightarrow> int option) \<Rightarrow> ('l, 'v) point store \<Rightarrow> addr \<Rightarrow> addr \<Rightarrow> int option
     \<Rightarrow> addr \<times> ('l, 'v) point store" where
  "window_step host now Date h stocks newArray filter' =
     (case filter' of
        None \<Rightarrow> (newArray, h)
      | Some days \<Rightarrow> filterByDate_store host now Date h stocks days)"

text \<open>The values of lines 106 to 110, one for each point of the array, in its order.\<close>

definition graph_values :: "bool \<Rightarrow> ('l, 'v) point list \<Rightarrow> 'v list" where
  "graph_values toggle newArray =
     (if toggle then map percentage newArray else map data newArray)"

text \<open>
  The effect of lines 95 to 112. \<open>stocks\<close> is the address of the series the hook
  returned and \<open>toggle\<close> the percentage switch. The result holds the store afterwards,
  the address of \<^verbatim>\<open>newArray\<close>, and the arguments of \<^verbatim>\<open>setLabels\<close> and
  \<^verbatim>\<open>setValues\<close>; it is \<open>None\<close> when the series is empty and the effect does nothing.
\<close>

record ('l, 'v) graph_update =
  store_after :: "('l, 'v) point store"
  newArray_at :: addr
  labels_set :: "'l list option"
  values_set :: "'v list"

definition graph_effect ::
  "host \<Rightarrow> int \<Rightarrow> ('l \<Rightarrow> int option) \<Rightarrow> ('l, 'v) point store \<Rightarrow> addr \<Rightarrow> int option \<Rightarrow> bool
     \<Rightarrow> ('l, 'v) graph_update option" where
  "graph_effect host now Date h stocks filter' toggle =
     (if 0 < length (deref h stocks)
      then (let (newArray, h1) = Array_reverse h stocks;
                (newArray, h2) = window_step host now Date h1 stocks newArray filter'
            in Some \<lparr>store_after = h2,
                     newArray_at = newArray,
                     labels_set = graph_labels (deref h2 newArray),
                     values_set = graph_values toggle (deref h2 newArray)\<rparr>)
      else None)"

section \<open>Properties of the search screen\<close>

lemma startsWith_prefix: "startsWith s p = prefix p s"
  by (induction s p rule: startsWith.induct) auto

lemma filter_from_filter: "filter_from (\<lambda>e i. P e) i xs = filter P xs"
  by (induction xs arbitrary: i) auto

lemma filter_from_length: "length (filter_from cb i xs) \<le> length xs"
  by (induction xs arbitrary: i) (auto simp: le_SucI)

lemma filter_from_never: "(\<And>e j. \<not> cb e j) \<Longrightarrow> filter_from cb i xs = []"
  by (induction xs arbitrary: i) auto

lemma filter_from_append:
  "filter_from cb i (xs @ ys) = filter_from cb i xs @ filter_from cb (i + length xs) ys"
  by (induction xs arbitrary: i) auto

text \<open>
  C4. For every instrument list and every query string, \<^verbatim>\<open>filterBySearch\<close> returns
  exactly the instruments whose symbol starts with the upper-cased query or whose name
  starts with the query as typed, in the order of the input: the result is the input
  filtered by that test, and so a subsequence of it.
\<close>

theorem filterBySearch_spec:
  "filterBySearch toUpperCase stockList query = filter (matches_spec toUpperCase query) stockList
   \<and> subseq (filterBySearch toUpperCase stockList query) stockList"
proof -
  have "matches_spec toUpperCase query
      = (\<lambda>stock. prefix (toUpperCase query) (Symbol stock) \<or> prefix query (Name stock))"
    by (simp add: matches_spec_def fun_eq_iff)
  then have "filterBySearch toUpperCase stockList query =
      filter (matches_spec toUpperCase query) stockList"
    by (simp add: filterBySearch_def Array_filter_def filter_from_filter startsWith_prefix)
  then show ?thesis by simp
qed

text \<open>
  C10. With a \<^verbatim>\<open>null\<close> query the rows on display are the stock list itself, and with
  the empty string as query they are the stock list too: same elements, same order.
\<close>

theorem rowData_effect_identity:
  "rowData_effect toUpperCase stockList None = stockList
   \<and> rowData_effect toUpperCase stockList (Some '''') = stockList"
  by (simp add: rowData_effect_def filterBySearch_def Array_filter_def filter_from_filter)

subsection \<open>Initialisation\<close>

lemma push_each_append: "push_each xs newState = newState @ xs"
  by (induction xs arbitrary: newState) auto

lemma push_missing_present:
  "set xs \<subseteq> set newState \<Longrightarrow> push_missing xs (newState, calls) = (newState, calls)"
  by (induction xs) auto

lemma initialiseData_Arr:
  "initialiseData newStocksFromDB (Arr cached) = Inr \<lparr>contextState = cached, setItem_calls = []\<rparr>"
  by (cases newStocksFromDB)
     (simp_all add: initialiseData_def map_receiver_def push_each_append push_missing_present
        completed_def)

lemma initialiseData_no_array:
  "initialiseData newStocksFromDB Undefined = Inl TypeError"
  "initialiseData newStocksFromDB Null = Inl TypeError"
  by (simp_all add: initialiseData_def map_receiver_def)

text \<open>
  C1. The merged watch list should be the union of the remote and the cached symbols.
  \<^verbatim>\<open>initialiseData\<close> never reads the remote symbols: whatever the remote read
  returned, the state it hands over is the cached list as it stands. With the remote list
  \<open>[AAPL]\<close> and an empty cache the state is empty.
\<close>

theorem initialiseData_remote_unread:
  "\<exists>r. initialiseData newStocksFromDB (Arr cached) = Inr r \<and> contextState r = cached"
  by (simp add: initialiseData_Arr)

theorem initialiseData_remote_unread_witness:
  "\<exists>r. initialiseData (Arr [''AAPL'']) (Arr []) = Inr r \<and> contextState r = []"
  by (rule initialiseData_remote_unread [of "Arr [''AAPL'']" "[]"])

text \<open>
  C2. One persistence instruction should be emitted for each remote symbol the cache
  lacks. \<^verbatim>\<open>initialiseData\<close> never calls \<^verbatim>\<open>AsyncStorage.setItem\<close>: its second loop
  runs over the cached symbols, which the first loop has already pushed. With the remote
  list \<open>[AAPL]\<close> and an empty cache no instruction is emitted.
\<close>

theorem initialiseData_no_setItem:
  "\<exists>r. initialiseData newStocksFromDB (Arr cached) = Inr r \<and> setItem_calls r = []"
  by (simp add: initialiseData_Arr)

theorem initialiseData_no_setItem_witness:
  "\<exists>r. initialiseData (Arr [''AAPL'']) (Arr []) = Inr r \<and> setItem_calls r = []"
  by (rule initialiseData_no_setItem [of "Arr [''AAPL'']" "[]"])

text \<open>
  C3. A read that returns a missing value should count as the empty set. When the remote
  read is missing the initialisation completes with the cached symbols; when the cache
  read is missing (\<^verbatim>\<open>undefined\<close> or \<^verbatim>\<open>null\<close>) the guard of line 62 lets it through
  and \<^verbatim>\<open>.map\<close> raises a \<^verbatim>\<open>TypeError\<close>, whatever the remote read returned.
\<close>

theorem initialiseData_missing_read:
  "initialiseData newStocksFromDB Undefined = Inl TypeError
   \<and> initialiseData newStocksFromDB Null = Inl TypeError
   \<and> initialiseData Undefined (Arr cached) = Inr \<lparr>contextState = cached, setItem_calls = []\<rparr>
   \<and> initialiseData Null (Arr cached) = Inr \<lparr>contextState = cached, setItem_calls = []\<rparr>"
  by (simp add: initialiseData_Arr initialiseData_no_array)

theorem initialiseData_missing_read_witness:
  "initialiseData (Arr [''AAPL'']) Undefined = Inl TypeError
   \<and> initialiseData (Arr [''AAPL'']) Null = Inl TypeError
   \<and> initialiseData Undefined (Arr [''MSFT'']) = Inr \<lparr>contextState = [''MSFT''], setItem_calls = []\<rparr>
   \<and> initialiseData Null (Arr [''MSFT'']) = Inr \<lparr>contextState = [''MSFT''], setItem_calls = []\<rparr>"
  by (rule initialiseData_missing_read [of "Arr [''AAPL'']" "[''MSFT'']"])

section \<open>Properties of the stock graph\<close>

lemma date_gt_later_than:
  "date_gt (Date (labels p)) (Some cutoff) = later_than Date cutoff p"
  by (simp add: date_gt_def later_than_def split: option.splits)

lemma date_gt_invalid: "\<not> date_gt a None"
  by (simp add: date_gt_def split: option.splits)

lemma day_shift: "(t div m - d) * m + t mod m = t - d * (m::int)"
proof -
  have "(t div m - d) * m + t mod m = (t div m * m + t mod m) - d * m"
    by (simp add: algebra_simps)
  then show ?thesis by simp
qed

text \<open>Moving the day of the month back by \<open>d\<close> moves the local time back by \<open>d\<close> days.\<close>

lemma setDate_getDate:
  "setDate host now (getDate host now - d)
     = TimeClip (UTC host (LocalTime host now - d * 86400000))"
proof -
  let ?t = "LocalTime host now"
  have "MakeDay host ?t (getDate host now - d) = Day ?t - d"
    by (simp add: MakeDay_def getDate_def DateFromTime_def)
  then have "MakeDate (MakeDay host ?t (getDate host now - d)) (TimeWithinDay ?t)
      = ?t - d * 86400000"
    using day_shift [of ?t 86400000 d]
    by (simp add: MakeDate_def Day_def TimeWithinDay_def msPerDay_def)
  then show ?thesis
    by (simp add: setDate_def Let_def)
qed

lemma filterByDate_cutoff:
  "filterByDate host now Date series d =
     (case TimeClip (UTC host (LocalTime host now - d * 86400000)) of
        None \<Rightarrow> []
      | Some cutoff \<Rightarrow> filter (later_than Date cutoff) series)"
proof (cases "TimeClip (UTC host (LocalTime host now - d * 86400000))")
  case None
  then show ?thesis
    by (simp add: filterByDate_def setDate_getDate Array_filter_def filter_from_never
        date_gt_invalid)
next
  case (Some cutoff)
  then show ?thesis
    by (simp add: filterByDate_def setDate_getDate Array_filter_def filter_from_filter
        date_gt_later_than)
qed

text \<open>
  C5. For every series and every whole day count \<open>d\<close>, \<^verbatim>\<open>filterByDate\<close> returns
  precisely the points whose timestamp is a valid date strictly later than the cutoff
  it computes, in the order of the input. The cutoff is the time with the local clock
  reading of now, \<open>d\<close> days of the local calendar earlier; when it is outside the range
  of \<^verbatim>\<open>Date\<close> no point is returned. Where the offset of local time is fixed, the
  cutoff is now less \<open>d\<close> times 86400000 milliseconds.
\<close>

theorem filterByDate_window:
  "filterByDate host now Date series d =
     (let local = now + LocalTZA host now True - d * 86400000;
          cutoff = local - LocalTZA host local False
      in if \<bar>cutoff\<bar> \<le> 8640000000000000
         then filter (later_than Date cutoff) series else [])
   \<and> filterByDate \<lparr>LocalTZA = (\<lambda>t isUTC. offset), monthStart = month\<rparr> now Date series d =
     (if \<bar>now - d * 86400000\<bar> \<le> 8640000000000000
      then filter (later_than Date (now - d * 86400000)) series else [])"
  by (simp add: filterByDate_cutoff TimeClip_def UTC_def LocalTime_def Let_def not_less)

theorem filterByDate_window_counterexample:
  "filterByDate new_york_host 1616241600000 Some
     [\<lparr>labels = 1615638600000::int, data = 10::int, percentage = 1\<rparr>] 7 = []
   \<and> (1616241600000::int) - 7 * 86400000 < 1615638600000
   \<and> filterByDate (utc_host 18687) 1616241600000 Some
     [\<lparr>labels = 1616241600000::int, data = 10::int, percentage = 1\<rparr>] 200000000 = []
   \<and> (1616241600000::int) - 200000000 * 86400000 < 1616241600000"
  by (simp add: filterByDate_cutoff TimeClip_def UTC_def LocalTime_def new_york_host_def
      utc_host_def later_than_def)

subsection \<open>Down-sampling the labels\<close>

lemma js_rem_nonpos:
  assumes "nth' \<le> 0"
  shows "js_rem (int i) nth' \<noteq> Some (nth' - 1)"
proof (cases "nth' = 0")
  case True
  then show ?thesis by (simp add: js_rem_def)
next
  case False
  from assms have neg: "nth' - 1 < 0" by simp
  have "0 \<le> \<bar>int i\<bar> mod \<bar>nth'\<bar>"
    using False by simp
  then have "0 \<le> sgn (int i) * (\<bar>int i\<bar> mod \<bar>nth'\<bar>)"
    by (simp add: sgn_if)
  with neg have "sgn (int i) * (\<bar>int i\<bar> mod \<bar>nth'\<bar>) \<noteq> nth' - 1"
    by linarith
  with False show ?thesis
    unfolding js_rem_def by (simp only: if_False option.inject not_False_eq_True)
qed

lemma js_rem_pos:
  assumes "0 < k"
  shows "(js_rem (int i) (int k) = Some (int k - 1)) = (i mod k = k - 1)"
proof -
  have "sgn (int i) * (\<bar>int i\<bar> mod \<bar>int k\<bar>) = int (i mod k)"
    by (cases "i = 0") (simp_all add: zmod_int)
  moreover have "int k - 1 = int (k - 1)"
    using assms by (simp add: of_nat_diff)
  then have "(int (i mod k) = int k - 1) = (i mod k = k - 1)"
    by (simp only: of_nat_eq_iff)
  ultimately show ?thesis using assms by (simp add: js_rem_def)
qed

text \<open>Within one period of the step no index is kept before the last one.\<close>

lemma every_short:
  "0 < k \<Longrightarrow> i mod k + length xs < k \<Longrightarrow> filter_from (\<lambda>e j. j mod k = k - 1) i xs = []"
proof (induction xs arbitrary: i)
  case Nil
  then show ?case by simp
next
  case (Cons x xs)
  from Cons.prems have "i mod k + 1 < k" by simp
  then have suc: "Suc i mod k = Suc (i mod k)"
    by (simp add: mod_Suc)
  from Cons.prems have "i mod k \<noteq> k - 1" by simp
  moreover have "filter_from (\<lambda>e j. j mod k = k - 1) (Suc i) xs = []"
    using Cons.IH [of "Suc i"] Cons.prems suc by simp
  ultimately show ?case by simp
qed

text \<open>A full period keeps its last element only.\<close>

lemma every_block:
  assumes "0 < k" "i mod k = 0" "length xs = k"
  shows "filter_from (\<lambda>e j. j mod k = k - 1) i xs = [xs ! (k - 1)]"
proof -
  let ?cb = "\<lambda>(e::'a) j. j mod k = k - 1"
  from assms have ne: "xs \<noteq> []" by auto
  then have split: "butlast xs @ [last xs] = xs" by simp
  have "filter_from ?cb i (butlast xs) = []"
    using assms by (intro every_short) simp_all
  moreover have "(i + (k - 1)) mod k = k - 1"
    using assms by (metis add_cancel_left_left diff_less mod_add_left_eq mod_less zero_less_one)
  then have "filter_from ?cb (i + length (butlast xs)) [last xs] = [last xs]"
    using assms by simp
  ultimately have "filter_from ?cb i (butlast xs @ [last xs]) = [last xs]"
    by (simp only: filter_from_append append_Nil)
  with ne assms show ?thesis by (simp only: split) (simp add: last_conv_nth)
qed

text \<open>Period by period: the array is cut after its first \<open>k\<close> elements.\<close>

lemma every_nth:
  assumes "0 < k"
  shows "i mod k = 0 \<Longrightarrow>
         filter_from (\<lambda>e j. j mod k = k - 1) i xs =
         map (\<lambda>j. xs ! (j * k + k - 1)) [0..<length xs div k]"
proof (induction "length xs" arbitrary: xs i rule: less_induct)
  case less
  let ?cb = "\<lambda>(e::'a) j. j mod k = k - 1"
  show ?case
  proof (cases "length xs < k")
    case True
    then have "length xs div k = 0" by simp
    moreover have "filter_from ?cb i xs = []"
      using every_short [of k i xs] assms less.prems True by simp
    ultimately show ?thesis by simp
  next
    case False
    then have len: "k \<le> length xs" by simp
    let ?m = "(length xs - k) div k"
    have div: "length xs div k = Suc ?m"
      using len assms by (simp add: le_div_geq)
    have "filter_from ?cb i xs =
          filter_from ?cb i (take k xs) @ filter_from ?cb (i + k) (drop k xs)"
      using filter_from_append [of ?cb i "take k xs" "drop k xs"] len by simp
    also have "filter_from ?cb i (take k xs) = [xs ! (k - 1)]"
      using every_block [of k i "take k xs"] assms less.prems len by simp
    also have "filter_from ?cb (i + k) (drop k xs) =
          map (\<lambda>j. drop k xs ! (j * k + k - 1)) [0..<?m]"
      using less.hyps [of "drop k xs" "i + k"] len assms less.prems by simp
    also have "\<dots> = map (\<lambda>j. xs ! (Suc j * k + k - 1)) [0..<?m]"
      using len assms by (simp add: add.commute add.left_commute add.assoc)
    finally have "filter_from ?cb i xs =
          xs ! (k - 1) # map (\<lambda>j. xs ! (Suc j * k + k - 1)) [0..<?m]" by simp
    also have "\<dots> = map (\<lambda>j. xs ! (j * k + k - 1)) (0 # map Suc [0..<?m])"
      by (simp add: comp_def)
    also have "0 # map Suc [0..<?m] = [0..<Suc ?m]"
      by (simp add: upt_conv_Cons map_Suc_upt del: upt_Suc)
    finally show ?thesis using div by simp
  qed
qed

lemma filterElements_step:
  assumes k: "0 < k"
  shows "filterElements arr (int k) = map (\<lambda>j. arr ! (j * k + k - 1)) [0..<length arr div k]"
proof -
  have "filterElements arr (int k) = filter_from (\<lambda>e j. j mod k = k - 1) 0 arr"
    by (simp add: filterElements_def Array_filter_def js_rem_pos [OF k])
  then show ?thesis
    using every_nth [OF k, of 0 arr] by simp
qed

lemma step_index_bound:
  assumes "0 < k" "j < m"
  shows "j * k + k - 1 < m * (k::nat)"
proof -
  from assms(2) have "Suc j \<le> m" by simp
  then have "Suc j * k \<le> m * k" by (rule mult_le_mono1)
  with assms(1) show ?thesis by simp
qed

lemma graph_labels_fifths:
  assumes k: "0 < k" and len: "length pts = 5 * k"
  shows "graph_labels pts = Some (map (\<lambda>j. labels (pts ! (j * k + k - 1))) [0..<5])"
proof -
  have "INDEX (length pts) = Some (int k)"
    using len by (simp add: INDEX_def)
  then have "graph_labels pts = Some (filterElements (map labels pts) (int k))"
    by (simp add: graph_labels_def)
  also have "filterElements (map labels pts) (int k) =
      map (\<lambda>j. map labels pts ! (j * k + k - 1)) [0..<5]"
    using filterElements_step [OF k, of "map labels pts"] len k by simp
  also have "\<dots> = map (\<lambda>j. labels (pts ! (j * k + k - 1))) [0..<5]"
  proof (rule map_cong [OF refl])
    fix j assume "j \<in> set [0..<5]"
    then have "j < 5" by simp
    then have "j * k + k - 1 < 5 * k" using k by (intro step_index_bound)
    then show "map labels pts ! (j * k + k - 1) = labels (pts ! (j * k + k - 1))"
      using len by simp
  qed
  finally show ?thesis .
qed

text \<open>
  C7. \<^verbatim>\<open>filterElements\<close> never returns more elements than its input holds and never
  faults. It has no guard for a step that is zero or negative: for such a step no index
  passes the test and the result is the empty array, not the input.
\<close>

theorem filterElements_bound:
  "length (filterElements arr nth') \<le> length arr
   \<and> (nth' \<le> 0 \<longrightarrow> filterElements arr nth' = [])"
  by (simp add: filterElements_def Array_filter_def filter_from_length filter_from_never
      js_rem_nonpos)

theorem filterElements_bound_witness:
  "(0::int) \<le> 0
   \<and> length (filterElements [''a'', ''b''] 0) \<le> length [''a'', ''b'']
   \<and> filterElements [''a'', ''b''] 0 = []"
  using filterElements_bound [of "[''a'', ''b'']" 0] by simp

theorem filterElements_guard_counterexample:
  "filterElements [''a'', ''b''] 0 = [] \<and> filterElements [''a'', ''b''] 0 \<noteq> [''a'', ''b'']"
  by (simp add: filterElements_def Array_filter_def js_rem_def)

text \<open>
  C8. The second argument of \<^verbatim>\<open>filterElements\<close> is the step itself, not a target
  count: for a step \<open>k\<close> of at least 1 the result holds exactly the elements at the
  indices \<open>k - 1\<close>, \<open>2k - 1\<close>, and so on, one for each full period of \<open>k\<close> elements.
  The graph passes a fifth of the length as step, so a series of \<open>5k\<close> points gets the 5
  labels at these indices; 50 labels and the step 10 give the labels at the indices 9, 19,
  29, 39 and 49.
\<close>

theorem filterElements_every:
  assumes "0 < k"
  shows "filterElements arr (int k) = map (\<lambda>j. arr ! (j * k + k - 1)) [0..<length arr div k]
       \<and> (length pts = 5 * k \<longrightarrow>
            graph_labels pts = Some (map (\<lambda>j. labels (pts ! (j * k + k - 1))) [0..<5]))"
  using assms by (simp add: filterElements_step graph_labels_fifths)

theorem filterElements_every_witness:
  "(0::nat) < 10 \<and> filterElements [0..<50] (int 10) = [9, 19, 29, 39, 49]"
proof -
  have e: "map (\<lambda>j. [0..<50] ! (j * 10 + 10 - 1)) [0..<length [0..<50] div 10]
      = [9, 19, 29, 39, 49::nat]"
    by code_simp
  have "(0::nat) < 10" by simp
  from filterElements_every [OF this, of "[0..<50]" "[]"]
  have "filterElements [0..<50] (int 10)
      = map (\<lambda>j. [0..<50] ! (j * 10 + 10 - 1)) [0..<length [0..<50] div 10]"
    by (rule conjunct1)
  with e show ?thesis by simp
qed

theorem filterElements_fifty_counterexample:
  "filterElements [0..<50] 10 = [9, 19, 29, 39, 49]
   \<and> filterElements [0..<50] (50 div 10) = [4, 9, 14, 19, 24, 29, 34, 39, 44, 49]"
  by code_simp

subsection \<open>The effect and the store\<close>

lemma deref_nonempty: "deref h a \<noteq> [] \<Longrightarrow> a < length h"
  by (auto simp: deref_def split: if_splits)

lemma deref_update: "a < length h \<Longrightarrow> deref (h[a := xs]) b = (if b = a then xs else deref h b)"
  by (auto simp: deref_def)

lemma deref_alloc_old: "b < length h \<Longrightarrow> deref (snd (alloc h xs)) b = deref h b"
  by (simp add: deref_def alloc_def nth_append)

lemma length_Array_reverse: "length (snd (Array_reverse h a)) = length h"
  by (simp add: Array_reverse_def)

lemma deref_Array_reverse:
  "a < length h \<Longrightarrow> deref (snd (Array_reverse h a)) a = rev (deref h a)"
  by (simp add: Array_reverse_def deref_update)

lemma window_step_keeps:
  "b < length h \<Longrightarrow> deref (snd (window_step host now Date h stocks newArray filter')) b = deref h b"
  by (cases filter') (simp_all add: window_step_def filterByDate_store_def deref_alloc_old)

lemma window_step_length:
  "length h \<le> length (snd (window_step host now Date h stocks newArray filter'))"
  by (cases filter') (simp_all add: window_step_def filterByDate_store_def alloc_def)

text \<open>One run on a series that is not empty reverses the series of the caller.\<close>

lemma graph_effect_run:
  assumes "stocks < length h" and "deref h stocks \<noteq> []"
  shows "\<exists>u. graph_effect host now Date h stocks filter' toggle = Some u
           \<and> deref (store_after u) stocks = rev (deref h stocks)
           \<and> length h \<le> length (store_after u)"
proof -
  let ?h1 = "snd (Array_reverse h stocks)"
  let ?w = "window_step host now Date ?h1 stocks stocks filter'"
  have h1: "stocks < length ?h1" using assms(1) by (simp add: length_Array_reverse)
  have "deref (snd ?w) stocks = deref ?h1 stocks"
    using h1 by (rule window_step_keeps)
  then have kept: "deref (snd ?w) stocks = rev (deref h stocks)"
    using assms(1) by (simp add: deref_Array_reverse)
  have len: "length h \<le> length (snd ?w)"
    using window_step_length [of ?h1 host now Date stocks stocks filter']
    by (simp add: length_Array_reverse)
  have "graph_effect host now Date h stocks filter' toggle =
      Some \<lparr>store_after = snd ?w, newArray_at = fst ?w,
            labels_set = graph_labels (deref (snd ?w) (fst ?w)),
            values_set = graph_values toggle (deref (snd ?w) (fst ?w))\<rparr>"
    using assms(2) by (simp add: graph_effect_def Array_reverse_def split_beta)
  with kept len show ?thesis by simp
qed

text \<open>
  C6. With no window selected the window step is the identity: it hands on the very
  array it was given and leaves the store as it is, so the series keeps its points and
  their order, and the effect then plots one value for each of these points, in that
  order.
\<close>

theorem window_step_identity:
  "fst (window_step host now Date h stocks newArray None) = newArray
   \<and> snd (window_step host now Date h stocks newArray None) = h
   \<and> deref (snd (window_step host now Date h stocks newArray None))
            (fst (window_step host now Date h stocks newArray None)) = deref h newArray
   \<and> (deref h stocks \<noteq> [] \<longrightarrow>
        (\<exists>u. graph_effect host now Date h stocks None toggle = Some u
             \<and> store_after u = snd (Array_reverse h stocks)
             \<and> newArray_at u = fst (Array_reverse h stocks)
             \<and> values_set u = graph_values toggle (deref (store_after u) (newArray_at u))))"
  by (simp add: window_step_def graph_effect_def Array_reverse_def)

theorem window_step_identity_witness:
  "deref [[\<lparr>labels = 0::int, data = 10::int, percentage = 1\<rparr>,
           \<lparr>labels = 777600000, data = 20, percentage = 2\<rparr>]] 0 \<noteq> []
   \<and> window_step (utc_host 0) 864000000 Some
        [[\<lparr>labels = 0::int, data = 10::int, percentage = 1\<rparr>,
          \<lparr>labels = 777600000, data = 20, percentage = 2\<rparr>]] 0 0 None
      = (0, [[\<lparr>labels = 0::int, data = 10::int, percentage = 1\<rparr>,
              \<lparr>labels = 777600000, data = 20, percentage = 2\<rparr>]])
   \<and> (\<exists>u. graph_effect (utc_host 0) 864000000 Some
               [[\<lparr>labels = 0::int, data = 10::int, percentage = 1\<rparr>,
                 \<lparr>labels = 777600000, data = 20, percentage = 2\<rparr>]] 0 None False = Some u
          \<and> length (values_set u) = 2)"
proof -
  let ?h = "[[\<lparr>labels = 0::int, data = 10::int, percentage = 1\<rparr>,
              \<lparr>labels = 777600000, data = 20, percentage = 2\<rparr>]]"
  have ne: "deref ?h 0 \<noteq> []" by (simp add: deref_def)
  from window_step_identity [of "utc_host 0" 864000000 Some ?h 0 0 False] ne
  have w: "window_step (utc_host 0) 864000000 Some ?h 0 0 None = (0, ?h)"
    and e: "\<exists>u. graph_effect (utc_host 0) 864000000 Some ?h 0 None False = Some u
             \<and> store_after u = snd (Array_reverse ?h 0)
             \<and> newArray_at u = fst (Array_reverse ?h 0)
             \<and> values_set u = graph_values False (deref (store_after u) (newArray_at u))"
    by (simp_all add: prod_eq_iff)
  from e have "\<exists>u. graph_effect (utc_host 0) 864000000 Some ?h 0 None False = Some u
             \<and> length (values_set u) = 2"
    by (auto simp: Array_reverse_def deref_def graph_values_def)
  with ne w show ?thesis by simp
qed

text \<open>
  C9. The effect should leave the series of the caller as it found it. Line 97 reverses
  that series in place: after one run on a series that is not empty the caller's array
  holds its points in the opposite order, whatever the window, and a second run puts
  them back, so the order plotted changes from run to run.
\<close>

theorem graph_effect_reverses_caller:
  assumes "stocks < length h" and "deref h stocks \<noteq> []"
  shows "\<exists>u. graph_effect host now Date h stocks filter' toggle = Some u
           \<and> deref (store_after u) stocks = rev (deref h stocks)
           \<and> (\<exists>u'. graph_effect host now Date (store_after u) stocks filter'' toggle' = Some u'
                    \<and> deref (store_after u') stocks = deref h stocks)"
proof -
  from graph_effect_run [OF assms, of host now Date filter' toggle]
  obtain u where u: "graph_effect host now Date h stocks filter' toggle = Some u"
      and rev1: "deref (store_after u) stocks = rev (deref h stocks)"
      and len: "length h \<le> length (store_after u)"
    by blast
  from assms(1) len have valid: "stocks < length (store_after u)" by simp
  from rev1 assms(2) have ne: "deref (store_after u) stocks \<noteq> []" by simp
  from graph_effect_run [OF valid ne, of host now Date filter'' toggle']
  obtain u' where "graph_effect host now Date (store_after u) stocks filter'' toggle' = Some u'"
      and "deref (store_after u') stocks = rev (deref (store_after u) stocks)"
    by blast
  with u rev1 show ?thesis by simp
qed

theorem graph_effect_reverses_caller_witness:
  "(0::nat) < length [[\<lparr>labels = 0::int, data = 10::int, percentage = 1\<rparr>,
                       \<lparr>labels = 777600000, data = 20, percentage = 2\<rparr>]]
   \<and> deref [[\<lparr>labels = 0::int, data = 10::int, percentage = 1\<rparr>,
             \<lparr>labels = 777600000, data = 20, percentage = 2\<rparr>]] 0 \<noteq> []
   \<and> (\<exists>u. graph_effect (utc_host 0) 864000000 Some
               [[\<lparr>labels = 0::int, data = 10::int, percentage = 1\<rparr>,
                 \<lparr>labels = 777600000, data = 20, percentage = 2\<rparr>]] 0 (Some 7) False = Some u
          \<and> deref (store_after u) 0
              = [\<lparr>labels = 777600000, data = 20, percentage = 2\<rparr>,
                 \<lparr>labels = 0, data = 10, percentage = 1\<rparr>]
          \<and> (\<exists>u'. graph_effect (utc_host 0) 864000000 Some (store_after u) 0 (Some 7) False = Some u'
                   \<and> deref (store_after u') 0
                       = [\<lparr>labels = 0, data = 10, percentage = 1\<rparr>,
                          \<lparr>labels = 777600000, data = 20, percentage = 2\<rparr>]))"
proof -
  let ?h = "[[\<lparr>labels = 0::int, data = 10::int, percentage = 1\<rparr>,
              \<lparr>labels = 777600000, data = 20, percentage = 2\<rparr>]]"
  have valid: "(0::nat) < length ?h" by simp
  have ne: "deref ?h 0 \<noteq> []" by (simp add: deref_def)
  have r: "deref ?h 0 = [\<lparr>labels = 0::int, data = 10::int, percentage = 1\<rparr>,
                         \<lparr>labels = 777600000, data = 20, percentage = 2\<rparr>]"
    by (simp add: deref_def)
  from graph_effect_reverses_caller
         [OF valid ne, of "utc_host 0" 864000000 Some "Some 7" False "Some 7" False] valid ne
  show ?thesis by (simp add: r)
qed

end
